theory Spec2Isabelle
  imports Complex_Main
begin

unbundle bit_operations_syntax

section \<open>Permission calculation of Tanjun's utilities module\<close>

text \<open>
  The development embeds \<^verbatim>\<open>tanjun/utilities.py\<close>: the permission arithmetic
  (\<^verbatim>\<open>ALL_PERMISSIONS\<close>, \<^verbatim>\<open>_calculate_channel_overwrites\<close>,
  \<^verbatim>\<open>_calculate_role_permissions\<close>, \<^verbatim>\<open>calculate_permissions\<close>)
  and the fetching layer (\<^verbatim>\<open>fetch_resource\<close>, \<^verbatim>\<open>fetch_permissions\<close>).
  A leading underscore of a Python name is dropped, since an Isabelle name cannot start
  with one.
\<close>

subsection \<open>Data model\<close>

text \<open>
  A snowflake is a non-negative Python integer, a permission set is a Python integer
  used as a bitmask. Three operators of the library's flag type are the usual ones on
  integers: \<^verbatim>\<open>a | b\<close> is \<open>a OR b\<close>, \<^verbatim>\<open>a & b\<close> is \<open>a AND b\<close>,
  \<^verbatim>\<open>a ^ b\<close> is \<open>a XOR b\<close>; a permission set is truthy when it is not \<open>0\<close>.
  The complement \<^verbatim>\<open>~a\<close> is taken within the flags the enumeration defines
  (\<open>invert\<close> below).
\<close>

type_synonym Snowflake = nat
type_synonym Permissions = int

text \<open>
  The exceptions the module raises or lets through. The two rate limit errors carry the
  attribute \<^verbatim>\<open>retry_after\<close>; \<open>OtherError\<close> stands for every other failure of a
  remote call.
\<close>

datatype error =
    ValueError
  | KeyError
  | TypeError
  | AssertionError
  | RateLimitedError real
  | RateLimitTooLongError real
  | InternalServerError
  | OtherError nat

text \<open>
  The objects the module reads. Only the attributes it touches are fields:
  \<^verbatim>\<open>role.id\<close>, \<^verbatim>\<open>role.permissions\<close>;
  \<^verbatim>\<open>member.guild_id\<close>, \<^verbatim>\<open>member.role_ids\<close>, \<^verbatim>\<open>member.user.id\<close>;
  \<^verbatim>\<open>guild.id\<close>, \<^verbatim>\<open>guild.owner_id\<close>;
  \<^verbatim>\<open>overwrite.allow\<close>, \<^verbatim>\<open>overwrite.deny\<close>;
  \<^verbatim>\<open>channel.guild_id\<close>, \<^verbatim>\<open>channel.permission_overwrites\<close>.
  Every such object is truthy in Python, so \<^verbatim>\<open>if x := d.get(k)\<close> tests for
  \<^verbatim>\<open>None\<close> only.
\<close>

record Role =
  role_id :: Snowflake
  role_permissions :: Permissions

record Member =
  member_guild_id :: Snowflake
  member_role_ids :: "Snowflake list"
  member_user_id :: Snowflake

record Guild =
  guild_id :: Snowflake
  guild_owner_id :: Snowflake

record PermissionOverwrite =
  ow_allow :: Permissions
  ow_deny :: Permissions

record GuildChannel =
  channel_guild_id :: Snowflake
  permission_overwrites :: "Snowflake \<rightharpoonup> PermissionOverwrite"

text \<open>
  The flag enumeration \<^verbatim>\<open>hikari.Permissions\<close> belongs to a library outside the
  repository. The module uses two things of it: the sequence of its members, in
  iteration order, and the member \<^verbatim>\<open>ADMINISTRATOR\<close>. Both are parameters here.
\<close>

record Permissions_enum =
  members :: "Permissions list"
  ADMINISTRATOR :: Permissions

text \<open>
  Modelled from the spec: the complement of the flag type, which belongs to the same
  library outside the repository. Section 2 of the specification describes the type as a
  flag set over a fixed, closed universe with complement and intersection: \<^verbatim>\<open>~a\<close>
  holds the flags of the enumeration that \<open>a\<close> does not hold. \<open>everything\<close> is
  the union of the members; a bit that no member has is in no complement, so
  \<^verbatim>\<open>p & ~a\<close> has no such bit either.
\<close>

definition everything :: "Permissions_enum \<Rightarrow> Permissions" where
  "everything P = foldl (OR) 0 (members P)"

definition invert :: "Permissions_enum \<Rightarrow> Permissions \<Rightarrow> Permissions" where
  "invert P a = everything P AND NOT a"

subsection \<open>\<^verbatim>\<open>ALL_PERMISSIONS\<close>\<close>

text \<open>
  \<^verbatim>\<open>functools.reduce(f, xs)\<close> without an initial value starts from the first
  element and raises \<^verbatim>\<open>TypeError\<close> on an empty sequence. The constant is computed
  when the module is imported; over an enumeration without members the import fails,
  and the model shows that failure wherever the constant is returned.
\<close>

fun reduce :: "('a \<Rightarrow> 'a \<Rightarrow> 'a) \<Rightarrow> 'a list \<Rightarrow> error + 'a" where
  "reduce f [] = Inl TypeError"
| "reduce f (x # xs) = Inr (foldl f x xs)"

definition ALL_PERMISSIONS :: "Permissions_enum \<Rightarrow> error + Permissions" where
  "ALL_PERMISSIONS P = reduce (XOR) (members P)"

subsection \<open>\<^verbatim>\<open>_calculate_channel_overwrites\<close>\<close>

text \<open>
  The role layer is outside any \<^verbatim>\<open>if\<close>: \<^verbatim>\<open>permissions &= ~deny\<close> runs also
  when no overwrite matched and \<open>deny\<close> is empty.
\<close>

definition calculate_channel_overwrites ::
  "Permissions_enum \<Rightarrow> GuildChannel \<Rightarrow> Member \<Rightarrow> Permissions \<Rightarrow> Permissions" where
  "calculate_channel_overwrites P channel member permissions =
     (let permissions =
            (case permission_overwrites channel (member_guild_id member) of
               Some everyone_overwrite \<Rightarrow>
                 (permissions AND invert P (ow_deny everyone_overwrite))
                   OR ow_allow everyone_overwrite
             | None \<Rightarrow> permissions);
          (deny, allow) =
            foldl (\<lambda>(deny, allow) overwrite. (deny OR ow_deny overwrite, allow OR ow_allow overwrite))
              (0, 0)
              (List.map_filter (permission_overwrites channel) (member_role_ids member));
          permissions = (permissions AND invert P deny) OR allow
      in case permission_overwrites channel (member_user_id member) of
           Some member_overwrite \<Rightarrow>
             (permissions AND invert P (ow_deny member_overwrite)) OR ow_allow member_overwrite
         | None \<Rightarrow> permissions)"

subsection \<open>\<^verbatim>\<open>_calculate_role_permissions\<close>\<close>

text \<open>
  \<^verbatim>\<open>roles[member.guild_id]\<close> raises \<^verbatim>\<open>KeyError\<close> when the key is missing;
  \<^verbatim>\<open>roles.get\<close> in the loop does not raise.
\<close>

definition calculate_role_permissions ::
  "(Snowflake \<rightharpoonup> Role) \<Rightarrow> Member \<Rightarrow> error + Permissions" where
  "calculate_role_permissions roles member =
     (case roles (member_guild_id member) of
        None \<Rightarrow> Inl KeyError
      | Some everyone \<Rightarrow>
          Inr (foldl
                 (\<lambda>permissions role_id'.
                    (case roles role_id' of
                       Some role \<Rightarrow>
                         (if role_id role \<noteq> member_guild_id member
                          then permissions OR role_permissions role
                          else permissions)
                     | None \<Rightarrow> permissions))
                 (role_permissions everyone)
                 (member_role_ids member)))"

subsection \<open>\<^verbatim>\<open>calculate_permissions\<close>\<close>

definition calculate_permissions ::
  "Permissions_enum \<Rightarrow> Member \<Rightarrow> Guild \<Rightarrow> (Snowflake \<rightharpoonup> Role) \<Rightarrow> GuildChannel option
     \<Rightarrow> error + Permissions" where
  "calculate_permissions P member guild roles channel =
     (if member_guild_id member \<noteq> guild_id guild then Inl ValueError
      else if guild_owner_id guild = member_user_id member then ALL_PERMISSIONS P
      else case calculate_role_permissions roles member of
             Inl e \<Rightarrow> Inl e
           | Inr permissions \<Rightarrow>
               if permissions AND ADMINISTRATOR P \<noteq> 0 then ALL_PERMISSIONS P
               else (case channel of
                       None \<Rightarrow> Inr permissions
                     | Some channel \<Rightarrow>
                         Inr (calculate_channel_overwrites P channel member permissions)))"

subsection \<open>The retry object\<close>

text \<open>
  Modelled from the spec: the class \<^verbatim>\<open>yuyo.backoff.Backoff\<close>, which belongs to a
  library that is not among the sources. Section 4.5 of the specification describes it as
  a control structure with a budget of retries, that waits for a recorded duration before
  the next attempt and applies no wait when none was recorded; section 8 calls the
  second invocation of the operation one retry. The model keeps the two configured
  values, whether the iteration has started, the number of retries used and the
  recorded wait. \<open>anext\<close> is one step of \<^verbatim>\<open>async for _ in retry\<close>: \<open>None\<close> when
  the iteration stops, otherwise the wait to perform before the loop body and the
  updated object. The first step is the first attempt: it uses no retry and waits for
  nothing. Every later step is a retry: it uses one of the configured number and
  performs the recorded wait; when none is left, the iteration stops. The configured
  maximum would bound a wait the object computes by itself; such a wait is not part of
  the specification, so the value is only carried. \<open>reset\<close> puts the object back to
  where a new one starts, \<open>set_next_backoff\<close> records a wait.
\<close>

record Backoff =
  maximum :: real
  max_retries :: nat
  started :: bool
  retries :: nat
  next_backoff :: "real option"

definition new_Backoff :: "real \<Rightarrow> nat \<Rightarrow> Backoff" where
  "new_Backoff maximum' max_retries' =
     \<lparr>maximum = maximum', max_retries = max_retries', started = False, retries = 0,
      next_backoff = None\<rparr>"

definition reset :: "Backoff \<Rightarrow> Backoff" where
  "reset b = b\<lparr>started := False, retries := 0, next_backoff := None\<rparr>"

definition set_next_backoff :: "real \<Rightarrow> Backoff \<Rightarrow> Backoff" where
  "set_next_backoff d b = b\<lparr>next_backoff := Some d\<rparr>"

definition anext :: "Backoff \<Rightarrow> (real option \<times> Backoff) option" where
  "anext b =
     (if \<not> started b then Some (None, b\<lparr>started := True\<rparr>)
      else if retries b < max_retries b
      then Some (next_backoff b, b\<lparr>retries := Suc (retries b), next_backoff := None\<rparr>)
      else None)"

subsection \<open>Remote calls\<close>

text \<open>
  A remote call is a function of the state of the remote side \<open>'w\<close>: it returns its
  result or the exception it raises, and the next state. The state of a run also keeps a
  trace of what the run did: every invocation of the call and every wait, in order. A
  wait is recorded in the trace and leaves the state of the remote side as it is.
\<close>

datatype event = Invoke | Sleep real

record 'w io =
  remote :: 'w
  trace :: "event list"

type_synonym ('w, 'a) call = "'w \<Rightarrow> (error + 'a) \<times> 'w"

definition invoke :: "('w, 'a) call \<Rightarrow> 'w io \<Rightarrow> (error + 'a) \<times> 'w io" where
  "invoke call s =
     (let (r, w) = call (remote s) in (r, s\<lparr>remote := w, trace := trace s @ [Invoke]\<rparr>))"

definition sleep :: "real option \<Rightarrow> 'w io \<Rightarrow> 'w io" where
  "sleep wait s = (case wait of None \<Rightarrow> s | Some d \<Rightarrow> s\<lparr>trace := trace s @ [Sleep d]\<rparr>)"

fun retry_after :: "error \<Rightarrow> real option" where
  "retry_after (RateLimitedError d) = Some d"
| "retry_after (RateLimitTooLongError d) = Some d"
| "retry_after _ = None"

subsection \<open>\<^verbatim>\<open>fetch_resource\<close>\<close>

text \<open>
  \<open>fetch_loop\<close> is the \<^verbatim>\<open>async for ... else\<close> statement: when the iteration
  stops, the \<^verbatim>\<open>else\<close> branch calls once more outside the \<^verbatim>\<open>try\<close>. The function
  returns the result or exception, the retry object as the run leaves it, and the state.
\<close>

function fetch_loop ::
  "('w, 'a) call \<Rightarrow> Backoff \<Rightarrow> 'w io \<Rightarrow> (error + 'a) \<times> Backoff \<times> 'w io" where
  "fetch_loop call retry s =
     (case anext retry of
        None \<Rightarrow> (let (r, s') = invoke call s in (r, retry, s'))
      | Some (wait, retry') \<Rightarrow>
          (let (r, s') = invoke call (sleep wait s) in
           (case r of
              Inr v \<Rightarrow> (Inr v, retry', s')
            | Inl exc \<Rightarrow>
                (case retry_after exc of
                   Some d \<Rightarrow>
                     (if d > 5 then (Inl exc, retry', s')
                      else fetch_loop call (set_next_backoff d retry') s')
                 | None \<Rightarrow>
                     (if exc = InternalServerError then fetch_loop call retry' s'
                      else (Inl exc, retry', s'))))))"
  by pat_completeness auto
termination
  by (relation "measure (\<lambda>(call, retry, s).
                  (max_retries retry - retries retry) + (if started retry then 0 else 1))")
     (auto simp: anext_def set_next_backoff_def split: if_splits)

declare fetch_loop.simps [simp del]

definition fetch_resource ::
  "Backoff \<Rightarrow> ('w, 'a) call \<Rightarrow> 'w io \<Rightarrow> (error + 'a) \<times> Backoff \<times> 'w io" where
  "fetch_resource retry call s = fetch_loop call (reset retry) s"

subsection \<open>\<^verbatim>\<open>fetch_permissions\<close>\<close>

text \<open>
  The collaborators of \<^verbatim>\<open>fetch_permissions\<close>. A guild fetched over REST also carries
  its roles (\<^verbatim>\<open>guild.roles\<close>); a mapping handed over by a collaborator is an
  association list, read with \<open>map_of\<close> and falsy when empty. The cache may be absent
  (\<^verbatim>\<open>client.cache\<close> is \<^verbatim>\<open>None\<close>); its lookups do not suspend and read the current
  state. \<^verbatim>\<open>fetch_channel\<close> may return a channel that is not a guild channel. The
  \<^verbatim>\<open>channel\<close> argument is a guild channel object or a snowflake; the snowflake
  \<open>0\<close> is falsy, as \<^verbatim>\<open>None\<close> is.
\<close>

record RESTGuild = Guild +
  guild_roles :: "(Snowflake \<times> Role) list"

datatype PartialChannel = A_GuildChannel GuildChannel | Not_A_GuildChannel

datatype channel_arg = ChannelObject GuildChannel | ChannelId Snowflake

record 'w Cache =
  get_guild :: "'w \<Rightarrow> Snowflake \<Rightarrow> Guild option"
  get_roles_view_for_guild :: "'w \<Rightarrow> Snowflake \<Rightarrow> (Snowflake \<times> Role) list"
  get_guild_channel :: "'w \<Rightarrow> Snowflake \<Rightarrow> GuildChannel option"

record 'w Client =
  cache :: "'w Cache option"
  fetch_guild :: "Snowflake \<Rightarrow> ('w, RESTGuild) call"
  fetch_roles :: "Snowflake \<Rightarrow> ('w, Role list) call"
  fetch_channel :: "Snowflake \<Rightarrow> ('w, PartialChannel) call"

text \<open>
  Lines 276 to 279: the guild from the cache, else from REST together with its roles.
\<close>

definition resolve_guild ::
  "'w Client \<Rightarrow> Member \<Rightarrow> Backoff \<Rightarrow> 'w io
     \<Rightarrow> (error + Guild \<times> (Snowflake \<times> Role) list option) \<times> Backoff \<times> 'w io" where
  "resolve_guild client member retry s =
     (case (case cache client of
              Some c \<Rightarrow> get_guild c (remote s) (member_guild_id member)
            | None \<Rightarrow> None) of
        Some guild \<Rightarrow> (Inr (guild, None), retry, s)
      | None \<Rightarrow>
          (case fetch_resource retry (fetch_guild client (member_guild_id member)) s of
             (Inl e, retry', s') \<Rightarrow> (Inl e, retry', s')
           | (Inr guild, retry', s') \<Rightarrow>
               (Inr (Guild.truncate guild, Some (guild_roles guild)), retry', s')))"

text \<open>
  Lines 285 to 288: \<^verbatim>\<open>roles or client.cache and client.cache.get_roles_view_for_guild(...)\<close>,
  then the REST fallback when the value is falsy; the fetched sequence becomes the
  dictionary \<^verbatim>\<open>{role.id: role for role in raw_roles}\<close>, where a later role
  replaces an earlier one of the same id.
\<close>

definition truthy_roles :: "(Snowflake \<times> Role) list option \<Rightarrow> bool" where
  "truthy_roles roles = (case roles of Some (x # xs) \<Rightarrow> True | _ \<Rightarrow> False)"

definition roles_dict :: "Role list \<Rightarrow> (Snowflake \<rightharpoonup> Role)" where
  "roles_dict raw_roles = foldl (\<lambda>d role. d(role_id role \<mapsto> role)) Map.empty raw_roles"

definition resolve_roles ::
  "'w Client \<Rightarrow> Member \<Rightarrow> (Snowflake \<times> Role) list option \<Rightarrow> Backoff \<Rightarrow> 'w io
     \<Rightarrow> (error + (Snowflake \<rightharpoonup> Role)) \<times> Backoff \<times> 'w io" where
  "resolve_roles client member roles retry s =
     (let roles =
            (if truthy_roles roles then roles
             else (case cache client of
                     None \<Rightarrow> None
                   | Some c \<Rightarrow> Some (get_roles_view_for_guild c (remote s) (member_guild_id member))))
      in if truthy_roles roles
         then (case roles of
                 Some view \<Rightarrow> (Inr (map_of view), retry, s)
               | None \<Rightarrow> (Inr Map.empty, retry, s))
         else (case fetch_resource retry (fetch_roles client (member_guild_id member)) s of
                 (Inl e, retry', s') \<Rightarrow> (Inl e, retry', s')
               | (Inr raw_roles, retry', s') \<Rightarrow> (Inr (roles_dict raw_roles), retry', s')))"

text \<open>
  Lines 297 to 307: the channel object as given, else from the cache, else from REST;
  the assertion fails on a fetched channel that is not a guild channel.
\<close>

definition resolve_channel ::
  "'w Client \<Rightarrow> channel_arg \<Rightarrow> Backoff \<Rightarrow> 'w io
     \<Rightarrow> (error + GuildChannel) \<times> Backoff \<times> 'w io" where
  "resolve_channel client channel retry s =
     (case channel of
        ChannelObject found_channel \<Rightarrow> (Inr found_channel, retry, s)
      | ChannelId channel_id \<Rightarrow>
          (case (case cache client of
                   Some c \<Rightarrow> get_guild_channel c (remote s) channel_id
                 | None \<Rightarrow> None) of
             Some found_channel \<Rightarrow> (Inr found_channel, retry, s)
           | None \<Rightarrow>
               (case fetch_resource retry (fetch_channel client channel_id) s of
                  (Inl e, retry', s') \<Rightarrow> (Inl e, retry', s')
                | (Inr (A_GuildChannel raw_channel), retry', s') \<Rightarrow> (Inr raw_channel, retry', s')
                | (Inr Not_A_GuildChannel, retry', s') \<Rightarrow> (Inl AssertionError, retry', s'))))"

definition falsy_channel :: "channel_arg option \<Rightarrow> bool" where
  "falsy_channel channel =
     (case channel of
        None \<Rightarrow> True
      | Some (ChannelId channel_id) \<Rightarrow> channel_id = 0
      | Some (ChannelObject c) \<Rightarrow> False)"

definition fetch_permissions ::
  "Permissions_enum \<Rightarrow> 'w Client \<Rightarrow> Member \<Rightarrow> channel_arg option \<Rightarrow> 'w io
     \<Rightarrow> (error + Permissions) \<times> 'w io" where
  "fetch_permissions P client member channel s =
     (let retry = new_Backoff 5 4 in
      case resolve_guild client member retry s of
        (Inl e, retry, s) \<Rightarrow> (Inl e, s)
      | (Inr (guild, roles), retry, s) \<Rightarrow>
          if guild_owner_id guild = member_user_id member then (ALL_PERMISSIONS P, s)
          else (case resolve_roles client member roles retry s of
                  (Inl e, retry, s) \<Rightarrow> (Inl e, s)
                | (Inr roles, retry, s) \<Rightarrow>
                    (case calculate_role_permissions roles member of
                       Inl e \<Rightarrow> (Inl e, s)
                     | Inr permissions \<Rightarrow>
                         if permissions AND ADMINISTRATOR P \<noteq> 0 then (ALL_PERMISSIONS P, s)
                         else (case channel of
                                 None \<Rightarrow> (Inr permissions, s)
                               | Some channel' \<Rightarrow>
                                   if falsy_channel channel then (Inr permissions, s)
                                   else (case resolve_channel client channel' retry s of
                                           (Inl e, retry, s) \<Rightarrow> (Inl e, s)
                                         | (Inr found_channel, retry, s) \<Rightarrow>
                                             if channel_guild_id found_channel \<noteq> guild_id guild
                                             then (Inl ValueError, s)
                                             else (Inr (calculate_channel_overwrites P
                                                          found_channel member permissions), s))))))"

subsection \<open>The specification's wording, for comparison\<close>

text \<open>
  The definitions of this subsection follow the specification, not the code; the
  theorems below compare them with the definitions above.

  Section 4.1: \<open>combine\<close> is the union, \<open>remove a b\<close> is \<open>a\<close> with the bits of
  \<open>b\<close> cleared, \<open>intersects\<close> tests for a common bit. \<open>union_all\<close> combines a
  list of permission sets, starting from the empty set.
\<close>

definition combine :: "Permissions \<Rightarrow> Permissions \<Rightarrow> Permissions" where
  "combine a b = a OR b"

definition remove :: "Permissions \<Rightarrow> Permissions \<Rightarrow> Permissions" where
  "remove a b = a AND NOT b"

definition intersects :: "Permissions \<Rightarrow> Permissions \<Rightarrow> bool" where
  "intersects a flag = (a AND flag \<noteq> 0)"

definition union_all :: "Permissions list \<Rightarrow> Permissions" where
  "union_all ps = foldr combine ps 0"

text \<open>
  Section 3: the flags of the universe never overlap. For a list of flags: no flag
  shares a bit with a flag at a later position.
\<close>

fun disjoint_flags :: "Permissions list \<Rightarrow> bool" where
  "disjoint_flags [] = True"
| "disjoint_flags (f # fs) = (list_all (\<lambda>g. f AND g = 0) fs \<and> disjoint_flags fs)"

text \<open>
  Section 3: a permission set is a set of flags of the closed universe: it has no bit
  that no member of the enumeration has.
\<close>

definition known :: "Permissions_enum \<Rightarrow> Permissions \<Rightarrow> bool" where
  "known P a = (a AND everything P = a)"

text \<open>
  Section 4.3: a layer removes the denied bits, then adds the allowed bits; the
  removal is the flag type's \<^verbatim>\<open>permissions & ~deny\<close>. The everyone layer and the
  member layer read one overwrite and are skipped when it is absent; the role layer
  combines the denies and the allows of all overwrites keyed by a role the member holds
  and is applied once.
\<close>

definition apply_layer ::
  "Permissions_enum \<Rightarrow> Permissions \<Rightarrow> Permissions \<Rightarrow> Permissions \<Rightarrow> Permissions" where
  "apply_layer P deny allow permissions = combine (permissions AND invert P deny) allow"

definition single_layer ::
  "Permissions_enum \<Rightarrow> GuildChannel \<Rightarrow> Snowflake \<Rightarrow> Permissions \<Rightarrow> Permissions" where
  "single_layer P channel subject permissions =
     (case permission_overwrites channel subject of
        None \<Rightarrow> permissions
      | Some overwrite \<Rightarrow> apply_layer P (ow_deny overwrite) (ow_allow overwrite) permissions)"

definition held_role_overwrites :: "GuildChannel \<Rightarrow> Member \<Rightarrow> PermissionOverwrite list" where
  "held_role_overwrites channel member =
     concat (map (\<lambda>r. case permission_overwrites channel r of None \<Rightarrow> [] | Some overwrite \<Rightarrow> [overwrite])
               (member_role_ids member))"

definition everyone_layer ::
  "Permissions_enum \<Rightarrow> GuildChannel \<Rightarrow> Member \<Rightarrow> Permissions \<Rightarrow> Permissions" where
  "everyone_layer P channel member = single_layer P channel (member_guild_id member)"

definition role_layer ::
  "Permissions_enum \<Rightarrow> GuildChannel \<Rightarrow> Member \<Rightarrow> Permissions \<Rightarrow> Permissions" where
  "role_layer P channel member =
     apply_layer P (union_all (map ow_deny (held_role_overwrites channel member)))
                   (union_all (map ow_allow (held_role_overwrites channel member)))"

definition member_layer ::
  "Permissions_enum \<Rightarrow> GuildChannel \<Rightarrow> Member \<Rightarrow> Permissions \<Rightarrow> Permissions" where
  "member_layer P channel member = single_layer P channel (member_user_id member)"

text \<open>
  Section 4.2: the roles that count for a member are those whose id the member holds,
  that are present in the mapping, and whose id differs from the guild id.
\<close>

definition held_roles :: "(Snowflake \<rightharpoonup> Role) \<Rightarrow> Member \<Rightarrow> Role list" where
  "held_roles roles member =
     concat (map (\<lambda>r. if r \<noteq> member_guild_id member
                       then (case roles r of None \<Rightarrow> [] | Some role \<Rightarrow> [role])
                       else [])
               (member_role_ids member))"

text \<open>
  A role mapping is keyed by role id: at each of the given keys, the role found, if
  any, has the key as its id.
\<close>

definition keyed_by_id :: "(Snowflake \<rightharpoonup> Role) \<Rightarrow> Snowflake list \<Rightarrow> bool" where
  "keyed_by_id roles ids =
     list_all (\<lambda>k. case roles k of None \<Rightarrow> True | Some role \<Rightarrow> role_id role = k) ids"

text \<open>
  Section 4.5: a failure the driver absorbs is a transient server failure or a rate
  limit whose suggested wait does not exceed the ceiling of 5.
\<close>

definition retryable :: "error \<Rightarrow> bool" where
  "retryable exc =
     (case retry_after exc of Some d \<Rightarrow> d \<le> 5 | None \<Rightarrow> exc = InternalServerError)"

text \<open>The wait that follows an absorbed failure when another guarded attempt is made.\<close>

definition wait_after :: "error \<Rightarrow> event list" where
  "wait_after exc = (case retry_after exc of Some d \<Rightarrow> [Sleep d] | None \<Rightarrow> [])"

text \<open>
  \<^verbatim>\<open>fetch_permissions\<close> as it would be if every remote resolution had a retry object
  of its own, newly made with the same configuration.
\<close>

definition fetch_permissions_fresh ::
  "Permissions_enum \<Rightarrow> 'w Client \<Rightarrow> Member \<Rightarrow> channel_arg option \<Rightarrow> 'w io
     \<Rightarrow> (error + Permissions) \<times> 'w io" where
  "fetch_permissions_fresh P client member channel s =
     (case resolve_guild client member (new_Backoff 5 4) s of
        (Inl e, retry, s) \<Rightarrow> (Inl e, s)
      | (Inr (guild, roles), retry, s) \<Rightarrow>
          if guild_owner_id guild = member_user_id member then (ALL_PERMISSIONS P, s)
          else (case resolve_roles client member roles (new_Backoff 5 4) s of
                  (Inl e, retry, s) \<Rightarrow> (Inl e, s)
                | (Inr roles, retry, s) \<Rightarrow>
                    (case calculate_role_permissions roles member of
                       Inl e \<Rightarrow> (Inl e, s)
                     | Inr permissions \<Rightarrow>
                         if permissions AND ADMINISTRATOR P \<noteq> 0 then (ALL_PERMISSIONS P, s)
                         else (case channel of
                                 None \<Rightarrow> (Inr permissions, s)
                               | Some channel' \<Rightarrow>
                                   if falsy_channel channel then (Inr permissions, s)
                                   else (case resolve_channel client channel' (new_Backoff 5 4) s of
                                           (Inl e, retry, s) \<Rightarrow> (Inl e, s)
                                         | (Inr found_channel, retry, s) \<Rightarrow>
                                             if channel_guild_id found_channel \<noteq> guild_id guild
                                             then (Inl ValueError, s)
                                             else (Inr (calculate_channel_overwrites P
                                                          found_channel member permissions), s))))))"

text \<open>
  The first \<open>n\<close> results of a call, made one after the other from a state of the
  remote side, and the state they leave.
\<close>

fun replay :: "('w, 'a) call \<Rightarrow> 'w \<Rightarrow> nat \<Rightarrow> (error + 'a) list \<times> 'w" where
  "replay call w 0 = ([], w)"
| "replay call w (Suc n) =
     (let (r, w') = call w; (rs, w'') = replay call w' n in (r # rs, w''))"

text \<open>
  What a run of guarded attempts does when every one of them fails with an absorbed
  failure: one invocation per failure, and between two attempts the wait the earlier
  failure asked for. No wait follows the last failure.
\<close>

fun guarded_trace :: "error list \<Rightarrow> event list" where
  "guarded_trace [] = []"
| "guarded_trace [exc] = [Invoke]"
| "guarded_trace (exc # exc' # excs) = Invoke # wait_after exc @ guarded_trace (exc' # excs)"

text \<open>The wait a retry object has recorded and not yet performed.\<close>

definition pending_wait :: "Backoff \<Rightarrow> event list" where
  "pending_wait retry = (case next_backoff retry of None \<Rightarrow> [] | Some d \<Rightarrow> [Sleep d])"

text \<open>
  The number of times the iteration still enters the loop body: once for the first
  attempt when the iteration has not started, and once for every retry that is left.
\<close>

definition attempts_left :: "Backoff \<Rightarrow> nat" where
  "attempts_left retry =
     (max_retries retry - retries retry) + (if started retry then 0 else 1)"

section \<open>Properties\<close>

subsection \<open>Bit arithmetic\<close>

lemma xor_eq_or_disjoint: "(a::int) AND b = 0 \<Longrightarrow> a XOR b = a OR b"
  by (rule bit_eqI) (auto simp: bit_xor_iff bit_or_iff bit_and_iff bit_eq_iff)

lemma or_and_zero: "(a::int) AND c = 0 \<Longrightarrow> b AND c = 0 \<Longrightarrow> (a OR b) AND c = 0"
  by (simp add: bit.conj_disj_distrib2)

lemma foldl_xor_disjoint:
  "list_all (\<lambda>g. (a::int) AND g = 0) fs \<Longrightarrow> disjoint_flags fs
     \<Longrightarrow> foldl (XOR) a fs = a OR union_all fs"
proof (induction fs arbitrary: a)
  case Nil
  then show ?case by (simp add: union_all_def)
next
  case (Cons f fs)
  have af: "a AND f = 0" using Cons.prems(1) by simp
  have 1: "list_all (\<lambda>g. (a XOR f) AND g = 0) fs"
    using Cons.prems by (auto simp: list_all_iff xor_eq_or_disjoint[OF af] or_and_zero)
  have "foldl (XOR) (a XOR f) fs = (a XOR f) OR union_all fs"
    using Cons.IH[OF 1] Cons.prems(2) by simp
  then show ?case
    by (simp add: xor_eq_or_disjoint[OF af] union_all_def combine_def or.assoc)
qed

lemma union_all_absorb: "f \<in> set fs \<Longrightarrow> union_all fs OR f = union_all fs"
proof (induction fs)
  case Nil
  then show ?case by simp
next
  case (Cons g fs)
  show ?case
  proof (cases "f = g")
    case True
    then show ?thesis by (simp add: union_all_def combine_def ac_simps)
  next
    case False
    then have "union_all fs OR f = union_all fs" using Cons by simp
    then show ?thesis by (simp add: union_all_def combine_def or.assoc)
  qed
qed

subsection \<open>All permissions\<close>

text \<open>
  Claim C9. Over a universe of flags that do not overlap, \<^verbatim>\<open>ALL_PERMISSIONS\<close> is
  the union of the members of the enumeration: reducing with exclusive or, as the code
  does, then gives what reducing with union gives. Combining it with any member gives
  it back, and removing it from itself leaves the empty set. The enumeration has at
  least one member, or the module could not be imported.
\<close>

theorem ALL_PERMISSIONS_is_union:
  assumes "members P \<noteq> []" and "disjoint_flags (members P)"
  shows "\<exists>all. ALL_PERMISSIONS P = Inr all
           \<and> all = union_all (members P)
           \<and> list_all (\<lambda>flag. combine all flag = all) (members P)
           \<and> remove all all = 0"
proof -
  obtain f fs where m: "members P = f # fs" using assms(1) by (cases "members P") auto
  have "foldl (XOR) f fs = f OR union_all fs"
    using assms(2) m by (intro foldl_xor_disjoint) simp_all
  then have a: "ALL_PERMISSIONS P = Inr (union_all (members P))"
    by (simp add: ALL_PERMISSIONS_def m union_all_def combine_def)
  have "list_all (\<lambda>flag. combine (union_all (members P)) flag = union_all (members P)) (members P)"
    by (simp add: list_all_iff combine_def union_all_absorb)
  then show ?thesis using a by (simp add: remove_def)
qed

theorem ALL_PERMISSIONS_is_union_witness:
  "members \<lparr>members = [0, 1, 2, 4, 8], ADMINISTRATOR = 8\<rparr> \<noteq> []
   \<and> disjoint_flags (members \<lparr>members = [0, 1, 2, 4, 8], ADMINISTRATOR = 8\<rparr>)
   \<and> ALL_PERMISSIONS \<lparr>members = [0, 1, 2, 4, 8], ADMINISTRATOR = 8\<rparr> = Inr 15
   \<and> union_all [0, 1, 2, 4, 8] = 15
   \<and> combine 15 4 = 15 \<and> remove 15 15 = 0"
proof -
  let ?P = "\<lparr>members = [0, 1, 2, 4, 8], ADMINISTRATOR = 8\<rparr>"
  have h1: "members ?P \<noteq> []" by simp
  have h2: "disjoint_flags (members ?P)" by simp
  have a: "ALL_PERMISSIONS ?P = Inr 15" by (simp add: ALL_PERMISSIONS_def)
  from ALL_PERMISSIONS_is_union[OF h1 h2] a
  have "(15::int) = union_all (members ?P)
        \<and> list_all (\<lambda>flag. combine 15 flag = (15::int)) (members ?P)
        \<and> remove (15::int) 15 = 0" by auto
  then show ?thesis using h1 h2 a by simp
qed



subsection \<open>The channel overwrite resolver\<close>

lemma union_all_Cons: "union_all (p # ps) = p OR union_all ps"
  by (simp add: union_all_def combine_def)

lemma union_all_Nil: "union_all [] = 0"
  by (simp add: union_all_def)

lemma foldl_overwrites:
  "foldl (\<lambda>(deny, allow) overwrite. (deny OR ow_deny overwrite, allow OR ow_allow overwrite))
     (d, a) ows
   = (d OR union_all (map ow_deny ows), a OR union_all (map ow_allow ows))"
  by (induction ows arbitrary: d a) (simp_all add: union_all_Cons union_all_Nil or.assoc)

lemma map_filter_overwrites:
  "List.map_filter f xs = concat (map (\<lambda>r. case f r of None \<Rightarrow> [] | Some y \<Rightarrow> [y]) xs)"
  by (induction xs) (simp_all split: option.splits)

lemma calculate_channel_overwrites_layers:
  "calculate_channel_overwrites P channel member permissions =
     member_layer P channel member
       (role_layer P channel member (everyone_layer P channel member permissions))"
  by (simp add: calculate_channel_overwrites_def member_layer_def role_layer_def
      everyone_layer_def single_layer_def apply_layer_def combine_def
      held_role_overwrites_def foldl_overwrites map_filter_overwrites
      split: option.splits)

lemma deny_last: "(x AND invert P d) AND d = 0"
  by (rule bit_eqI) (auto simp: invert_def bit_and_iff bit_not_iff)

lemma known_remove: "known P a \<Longrightarrow> a AND invert P b = remove a b"
proof -
  assume "known P a"
  then have a: "a AND everything P = a" by (simp add: known_def)
  have "a AND invert P b = (a AND everything P) AND NOT b"
    by (simp add: invert_def and.assoc)
  then show ?thesis using a by (simp add: remove_def)
qed

lemma known_apply_layer:
  "known P allow \<Longrightarrow> known P (apply_layer P deny allow permissions)"
proof -
  assume "known P allow"
  then have a: "allow AND everything P = allow" by (simp add: known_def)
  have "(permissions AND invert P deny) AND everything P = permissions AND invert P deny"
    by (rule bit_eqI) (auto simp: invert_def bit_and_iff bit_not_iff)
  then show ?thesis
    using a by (simp add: known_def apply_layer_def combine_def bit.conj_disj_distrib2)
qed

text \<open>
  Claim C1. \<^verbatim>\<open>_calculate_channel_overwrites\<close> is the member layer applied to the role
  layer applied to the everyone layer of the base permission set, each layer removing
  its denied bits before adding its allowed bits, and the role layer built from the
  unions of the denies and of the allows of the overwrites of the roles the member
  holds. The removal is the flag type's: on a permission set of the universe it clears
  the denied bits and nothing else, and a layer whose allowed bits are of the universe
  yields a set of the universe; a bit outside the universe does not survive a removal.
  In particular, when the everyone overwrite denies a set \<open>send\<close>, the overwrite of a
  held role allows it and the member overwrite denies it, the result has no bit of
  \<open>send\<close>, whatever the base permission set.
\<close>

theorem channel_overwrites_layering:
  "calculate_channel_overwrites P channel member permissions =
     member_layer P channel member
       (role_layer P channel member (everyone_layer P channel member permissions))
   \<and> (known P permissions \<longrightarrow>
        apply_layer P deny allow permissions = combine (remove permissions deny) allow)
   \<and> (known P allow \<longrightarrow> known P (apply_layer P deny allow permissions))
   \<and> (permission_overwrites channel (member_guild_id member) = Some \<lparr>ow_allow = 0, ow_deny = send\<rparr>
        \<and> r \<in> set (member_role_ids member)
        \<and> permission_overwrites channel r = Some \<lparr>ow_allow = send, ow_deny = 0\<rparr>
        \<and> permission_overwrites channel (member_user_id member) = Some \<lparr>ow_allow = 0, ow_deny = send\<rparr>
      \<longrightarrow> calculate_channel_overwrites P channel member permissions AND send = 0)"
proof (intro conjI impI)
  show "calculate_channel_overwrites P channel member permissions =
     member_layer P channel member
       (role_layer P channel member (everyone_layer P channel member permissions))"
    by (rule calculate_channel_overwrites_layers)
next
  assume "known P permissions"
  then show "apply_layer P deny allow permissions = combine (remove permissions deny) allow"
    by (simp add: apply_layer_def known_remove)
next
  assume "known P allow"
  then show "known P (apply_layer P deny allow permissions)"
    by (rule known_apply_layer)
next
  assume h: "permission_overwrites channel (member_guild_id member) = Some \<lparr>ow_allow = 0, ow_deny = send\<rparr>
        \<and> r \<in> set (member_role_ids member)
        \<and> permission_overwrites channel r = Some \<lparr>ow_allow = send, ow_deny = 0\<rparr>
        \<and> permission_overwrites channel (member_user_id member) = Some \<lparr>ow_allow = 0, ow_deny = send\<rparr>"
  then show "calculate_channel_overwrites P channel member permissions AND send = 0"
    by (simp add: calculate_channel_overwrites_layers member_layer_def single_layer_def
        apply_layer_def combine_def deny_last)
qed

theorem channel_overwrites_layering_witness:
  "calculate_channel_overwrites \<lparr>members = [8, 1024, 2048], ADMINISTRATOR = 8\<rparr>
     \<lparr>channel_guild_id = 1,
      permission_overwrites = [1 \<mapsto> \<lparr>ow_allow = 0, ow_deny = 2048\<rparr>,
                               2 \<mapsto> \<lparr>ow_allow = 2048, ow_deny = 0\<rparr>,
                               3 \<mapsto> \<lparr>ow_allow = 0, ow_deny = 2048\<rparr>]\<rparr>
     \<lparr>member_guild_id = 1, member_role_ids = [2], member_user_id = 3\<rparr> 3072 AND 2048 = 0
   \<and> calculate_channel_overwrites \<lparr>members = [8, 1024, 2048], ADMINISTRATOR = 8\<rparr>
     \<lparr>channel_guild_id = 1,
      permission_overwrites = [1 \<mapsto> \<lparr>ow_allow = 0, ow_deny = 2048\<rparr>,
                               2 \<mapsto> \<lparr>ow_allow = 2048, ow_deny = 0\<rparr>,
                               3 \<mapsto> \<lparr>ow_allow = 0, ow_deny = 2048\<rparr>]\<rparr>
     \<lparr>member_guild_id = 1, member_role_ids = [2], member_user_id = 3\<rparr> 3072 = 1024
   \<and> known \<lparr>members = [8, 1024, 2048], ADMINISTRATOR = 8\<rparr> 3072
   \<and> apply_layer \<lparr>members = [8, 1024, 2048], ADMINISTRATOR = 8\<rparr> 2048 8 3072 = 1032
   \<and> known \<lparr>members = [8, 1024, 2048], ADMINISTRATOR = 8\<rparr> 1032
   \<and> calculate_channel_overwrites \<lparr>members = [8, 1024, 2048], ADMINISTRATOR = 8\<rparr>
     \<lparr>channel_guild_id = 1, permission_overwrites = Map.empty\<rparr>
     \<lparr>member_guild_id = 1, member_role_ids = [2], member_user_id = 3\<rparr> 8589935616 = 1024"
proof -
  let ?P = "\<lparr>members = [8, 1024, 2048], ADMINISTRATOR = 8\<rparr>"
  let ?ch = "\<lparr>channel_guild_id = 1,
      permission_overwrites = [1 \<mapsto> \<lparr>ow_allow = 0, ow_deny = 2048\<rparr>,
                               2 \<mapsto> \<lparr>ow_allow = 2048, ow_deny = 0\<rparr>,
                               3 \<mapsto> \<lparr>ow_allow = 0, ow_deny = 2048\<rparr>]\<rparr>"
  let ?none = "\<lparr>channel_guild_id = 1, permission_overwrites = Map.empty\<rparr>"
  let ?m = "\<lparr>member_guild_id = 1, member_role_ids = [2], member_user_id = 3\<rparr>"
  have e: "everything ?P = 3080" by (simp add: everything_def)
  have k: "known ?P 3072" by (simp add: known_def e)
  have a: "calculate_channel_overwrites ?P ?ch ?m 3072 AND 2048 = 0
         \<and> calculate_channel_overwrites ?P ?ch ?m 3072 = 1024
         \<and> apply_layer ?P 2048 8 3072 = 1032 \<and> known ?P (apply_layer ?P 2048 8 3072)"
    using channel_overwrites_layering[of ?P ?ch ?m 3072 2048 8 2048 2]
    by (simp add: member_layer_def role_layer_def everyone_layer_def single_layer_def
        apply_layer_def combine_def remove_def invert_def e held_role_overwrites_def union_all_def
        known_def)
  have b: "calculate_channel_overwrites ?P ?none ?m 8589935616 = 1024"
    using channel_overwrites_layering[of ?P ?none ?m 8589935616 0 0 0 2, THEN conjunct1]
    by (simp add: member_layer_def role_layer_def everyone_layer_def single_layer_def
        apply_layer_def combine_def invert_def e held_role_overwrites_def union_all_def)
  show ?thesis using a b k by (simp add: known_def e)
qed

subsection \<open>The role permission resolver\<close>

lemma foldl_role_permissions:
  "keyed_by_id roles ids \<Longrightarrow>
   foldl (\<lambda>permissions role_id'.
            (case roles role_id' of
               Some role \<Rightarrow>
                 (if role_id role \<noteq> g then permissions OR role_permissions role
                  else permissions)
             | None \<Rightarrow> permissions)) p ids
   = p OR union_all (map role_permissions
        (concat (map (\<lambda>r. if r \<noteq> g
                       then (case roles r of None \<Rightarrow> [] | Some role \<Rightarrow> [role])
                       else []) ids)))"
proof (induction ids arbitrary: p)
  case Nil
  then show ?case by (simp add: union_all_Nil)
next
  case (Cons r rs)
  then have k: "keyed_by_id roles rs" by (simp add: keyed_by_id_def)
  show ?case
  proof (cases "roles r")
    case None
    then show ?thesis using Cons.IH[OF k] by simp
  next
    case (Some role)
    then have "role_id role = r" using Cons.prems by (simp add: keyed_by_id_def)
    then show ?thesis using Some Cons.IH[OF k]
      by (simp add: union_all_Cons or.assoc)
  qed
qed

text \<open>
  Claim C5. When the mapping has an entry at the member's guild id and is keyed by role
  id at the ids the member holds, \<^verbatim>\<open>_calculate_role_permissions\<close> returns the
  permissions of that entry combined with the permissions of every role whose id the
  member holds, that is present in the mapping and whose id differs from the guild id.
  A held id that is absent from the mapping contributes nothing and raises nothing.
\<close>

theorem role_permissions_union:
  assumes "roles (member_guild_id member) = Some everyone"
      and "keyed_by_id roles (member_role_ids member)"
  shows "calculate_role_permissions roles member =
           Inr (combine (role_permissions everyone)
                  (union_all (map role_permissions (held_roles roles member))))"
  using assms
  by (simp add: calculate_role_permissions_def foldl_role_permissions held_roles_def combine_def)

theorem role_permissions_union_witness:
  "[1 \<mapsto> \<lparr>role_id = 1, role_permissions = 1024\<rparr>, 2 \<mapsto> \<lparr>role_id = 2, role_permissions = 2048\<rparr>,
    3 \<mapsto> \<lparr>role_id = 3, role_permissions = 4\<rparr>]
     (member_guild_id \<lparr>member_guild_id = 1, member_role_ids = [2, 7, 1], member_user_id = 9\<rparr>)
     = Some \<lparr>role_id = 1, role_permissions = 1024\<rparr>
   \<and> keyed_by_id [1 \<mapsto> \<lparr>role_id = 1, role_permissions = 1024\<rparr>, 2 \<mapsto> \<lparr>role_id = 2, role_permissions = 2048\<rparr>,
    3 \<mapsto> \<lparr>role_id = 3, role_permissions = 4\<rparr>] [2, 7, 1]
   \<and> calculate_role_permissions
       [1 \<mapsto> \<lparr>role_id = 1, role_permissions = 1024\<rparr>, 2 \<mapsto> \<lparr>role_id = 2, role_permissions = 2048\<rparr>,
        3 \<mapsto> \<lparr>role_id = 3, role_permissions = 4\<rparr>]
       \<lparr>member_guild_id = 1, member_role_ids = [2, 7, 1], member_user_id = 9\<rparr> = Inr 3072"
proof -
  let ?roles = "[1 \<mapsto> \<lparr>role_id = 1, role_permissions = 1024\<rparr>, 2 \<mapsto> \<lparr>role_id = 2, role_permissions = 2048\<rparr>,
    3 \<mapsto> \<lparr>role_id = (3::nat), role_permissions = 4\<rparr>]"
  let ?m = "\<lparr>member_guild_id = 1, member_role_ids = [2, 7, 1], member_user_id = 9\<rparr>"
  have h1: "?roles (member_guild_id ?m) = Some \<lparr>role_id = 1, role_permissions = 1024\<rparr>" by simp
  have h2: "keyed_by_id ?roles (member_role_ids ?m)" by (simp add: keyed_by_id_def)
  show ?thesis
    using role_permissions_union[OF h1 h2] h1 h2
    by (simp add: held_roles_def union_all_def combine_def)
qed

lemma ALL_PERMISSIONS_error:
  "ALL_PERMISSIONS P = Inl e \<longleftrightarrow> members P = [] \<and> e = TypeError"
  by (cases "members P") (auto simp: ALL_PERMISSIONS_def)

lemma calculate_role_permissions_error:
  "calculate_role_permissions roles member = Inl e
     \<longleftrightarrow> roles (member_guild_id member) = None \<and> e = KeyError"
  by (auto simp: calculate_role_permissions_def split: option.splits)

text \<open>
  Claim C6. \<^verbatim>\<open>_calculate_role_permissions\<close> fails exactly when the mapping has no
  entry at the member's guild id, and the failure is \<^verbatim>\<open>KeyError\<close>. For a member of
  the guild who is not its owner, \<^verbatim>\<open>calculate_permissions\<close> raises
  \<^verbatim>\<open>KeyError\<close> in exactly that case, and, the flag enumeration having a member,
  fails in no other case. Both functions are pure: the failure is their result, and
  nothing is attempted again. In \<^verbatim>\<open>fetch_permissions\<close> the resolver runs after
  the roles are resolved and outside \<^verbatim>\<open>fetch_resource\<close>: its \<^verbatim>\<open>KeyError\<close> is the
  result of the call, and the state is the one the resolution of the roles left, so no
  remote call follows the failure.
\<close>

theorem role_permissions_failure:
  "((\<exists>e. calculate_role_permissions roles member = Inl e)
      \<longleftrightarrow> roles (member_guild_id member) = None)
   \<and> (calculate_role_permissions roles member = Inl KeyError
      \<longleftrightarrow> roles (member_guild_id member) = None)
   \<and> (member_guild_id member = guild_id guild \<and> guild_owner_id guild \<noteq> member_user_id member \<longrightarrow>
        (calculate_permissions P member guild roles channel = Inl KeyError
           \<longleftrightarrow> roles (member_guild_id member) = None))
   \<and> (member_guild_id member = guild_id guild \<and> guild_owner_id guild \<noteq> member_user_id member
        \<and> members P \<noteq> [] \<longrightarrow>
        ((\<exists>e. calculate_permissions P member guild roles channel = Inl e)
           \<longleftrightarrow> roles (member_guild_id member) = None))
   \<and> (resolve_guild client member (new_Backoff 5 4) s = (Inr (guild', roles0), retry1, s1)
        \<and> guild_owner_id guild' \<noteq> member_user_id member
        \<and> resolve_roles client member roles0 retry1 s1 = (Inr roles, retry2, s2)
        \<and> roles (member_guild_id member) = None \<longrightarrow>
        fetch_permissions P client member channel' s = (Inl KeyError, s2))"
proof (intro conjI impI)
  show "(\<exists>e. calculate_role_permissions roles member = Inl e)
      \<longleftrightarrow> roles (member_guild_id member) = None"
    by (simp add: calculate_role_permissions_error)
  show "calculate_role_permissions roles member = Inl KeyError
      \<longleftrightarrow> roles (member_guild_id member) = None"
    by (simp add: calculate_role_permissions_error)
next
  assume h: "member_guild_id member = guild_id guild \<and> guild_owner_id guild \<noteq> member_user_id member"
  show "calculate_permissions P member guild roles channel = Inl KeyError
           \<longleftrightarrow> roles (member_guild_id member) = None"
  proof (cases "calculate_role_permissions roles member")
    case (Inl e)
    then have r: "roles (member_guild_id member) = None" "e = KeyError"
      by (simp_all add: calculate_role_permissions_error)
    show ?thesis using h Inl r by (simp add: calculate_permissions_def)
  next
    case (Inr p)
    then have "roles (member_guild_id member) \<noteq> None"
      by (auto simp: calculate_role_permissions_def split: option.splits)
    then show ?thesis using h Inr
      by (auto simp: calculate_permissions_def ALL_PERMISSIONS_error split: option.splits)
  qed
next
  assume h: "member_guild_id member = guild_id guild \<and> guild_owner_id guild \<noteq> member_user_id member
        \<and> members P \<noteq> []"
  show "(\<exists>e. calculate_permissions P member guild roles channel = Inl e)
           \<longleftrightarrow> roles (member_guild_id member) = None"
  proof (cases "calculate_role_permissions roles member")
    case (Inl e)
    then have r: "roles (member_guild_id member) = None" "e = KeyError"
      by (simp_all add: calculate_role_permissions_error)
    show ?thesis using h Inl r by (simp add: calculate_permissions_def)
  next
    case (Inr p)
    then have "roles (member_guild_id member) \<noteq> None"
      by (auto simp: calculate_role_permissions_def split: option.splits)
    then show ?thesis using h Inr
      by (auto simp: calculate_permissions_def ALL_PERMISSIONS_error split: option.splits)
  qed
next
  assume h: "resolve_guild client member (new_Backoff 5 4) s = (Inr (guild', roles0), retry1, s1)
        \<and> guild_owner_id guild' \<noteq> member_user_id member
        \<and> resolve_roles client member roles0 retry1 s1 = (Inr roles, retry2, s2)
        \<and> roles (member_guild_id member) = None"
  then have "calculate_role_permissions roles member = Inl KeyError"
    by (simp add: calculate_role_permissions_error)
  then show "fetch_permissions P client member channel' s = (Inl KeyError, s2)"
    using h by (simp add: fetch_permissions_def)
qed

theorem role_permissions_failure_witness:
  "calculate_role_permissions Map.empty \<lparr>member_guild_id = 1, member_role_ids = [2], member_user_id = 5\<rparr>
     = Inl KeyError
   \<and> calculate_permissions \<lparr>members = [1, 2, 4, 8], ADMINISTRATOR = 8\<rparr>
        \<lparr>member_guild_id = 1, member_role_ids = [2], member_user_id = 5\<rparr>
        \<lparr>guild_id = 1, guild_owner_id = 6\<rparr> [2 \<mapsto> \<lparr>role_id = 2, role_permissions = 8\<rparr>] None
     = Inl KeyError
   \<and> calculate_permissions \<lparr>members = [1, 2, 4, 8], ADMINISTRATOR = 8\<rparr>
        \<lparr>member_guild_id = 1, member_role_ids = [2], member_user_id = 5\<rparr>
        \<lparr>guild_id = 1, guild_owner_id = 6\<rparr> [1 \<mapsto> \<lparr>role_id = 1, role_permissions = 2\<rparr>] None
     \<noteq> Inl KeyError
   \<and> fetch_permissions \<lparr>members = [1, 2, 4, 8], ADMINISTRATOR = 8\<rparr>
        \<lparr>cache = Some \<lparr>get_guild = (\<lambda>w g. if g = 1 then Some \<lparr>guild_id = 1, guild_owner_id = 6\<rparr> else None),
                        get_roles_view_for_guild = (\<lambda>w g. [(2, \<lparr>role_id = 2, role_permissions = 8\<rparr>)]),
                        get_guild_channel = (\<lambda>w c. None)\<rparr>,
         fetch_guild = (\<lambda>g w. (Inl InternalServerError, w)),
         fetch_roles = (\<lambda>g w. (Inl InternalServerError, w)),
         fetch_channel = (\<lambda>c w. (Inl InternalServerError, w))\<rparr>
        \<lparr>member_guild_id = 1, member_role_ids = [2], member_user_id = 5\<rparr>
        (Some (ChannelId 7))
        \<lparr>remote = (), trace = []\<rparr>
     = (Inl KeyError, \<lparr>remote = (), trace = []\<rparr>)"
proof -
  let ?P = "\<lparr>members = [1, 2, 4, 8], ADMINISTRATOR = 8\<rparr>"
  let ?m = "\<lparr>member_guild_id = 1, member_role_ids = [2], member_user_id = 5\<rparr>"
  let ?g = "\<lparr>guild_id = 1, guild_owner_id = 6\<rparr>"
  let ?r2 = "[2 \<mapsto> \<lparr>role_id = 2, role_permissions = 8\<rparr>]"
  let ?r1 = "[1 \<mapsto> \<lparr>role_id = 1, role_permissions = 2\<rparr>]"
  let ?cl = "\<lparr>cache = Some \<lparr>get_guild = (\<lambda>w g. if g = 1 then Some \<lparr>guild_id = 1, guild_owner_id = 6\<rparr> else None),
                        get_roles_view_for_guild = (\<lambda>w g. [(2, \<lparr>role_id = 2, role_permissions = 8\<rparr>)]),
                        get_guild_channel = (\<lambda>w c. None)\<rparr>,
         fetch_guild = (\<lambda>g w. (Inl InternalServerError, w)),
         fetch_roles = (\<lambda>g w. (Inl InternalServerError, w)),
         fetch_channel = (\<lambda>c (w::unit). (Inl InternalServerError, w))\<rparr>"
  let ?s = "\<lparr>remote = (), trace = []\<rparr>"
  have g: "resolve_guild ?cl ?m (new_Backoff 5 4) ?s = (Inr (?g, None), new_Backoff 5 4, ?s)"
    by (simp add: resolve_guild_def)
  have r: "resolve_roles ?cl ?m None (new_Backoff 5 4) ?s = (Inr ?r2, new_Backoff 5 4, ?s)"
    by (simp add: resolve_roles_def truthy_roles_def)
  have a: "calculate_role_permissions Map.empty ?m = Inl KeyError"
    using role_permissions_failure[of Map.empty ?m, THEN conjunct2, THEN conjunct1] by simp
  have b: "calculate_permissions ?P ?m ?g ?r2 None = Inl KeyError"
    using role_permissions_failure[of ?r2 ?m ?g ?P None, THEN conjunct2, THEN conjunct2, THEN conjunct1]
    by simp
  have c: "calculate_permissions ?P ?m ?g ?r1 None \<noteq> Inl KeyError"
    using role_permissions_failure[of ?r1 ?m ?g ?P None, THEN conjunct2, THEN conjunct2, THEN conjunct1]
    by simp
  have d: "fetch_permissions ?P ?cl ?m (Some (ChannelId 7)) ?s = (Inl KeyError, ?s)"
    using role_permissions_failure
      [of ?r2 ?m ?g ?P None ?cl ?s ?g None "new_Backoff 5 4" ?s "new_Backoff 5 4" ?s "Some (ChannelId 7)",
       THEN conjunct2, THEN conjunct2, THEN conjunct2, THEN conjunct2]
      g r by simp
  show ?thesis using a b c d by simp
qed

subsection \<open>The permission calculator\<close>

text \<open>
  Claim C2. For a member of the guild, when the role permission resolver returns a
  permission set that has a bit of the administrator flag, \<^verbatim>\<open>calculate_permissions\<close>
  returns \<^verbatim>\<open>ALL_PERMISSIONS\<close> whatever the channel argument is: the overwrites are not
  read. The instance below has a channel whose overwrite for the member denies every
  bit.
\<close>

theorem administrator_overrides:
  assumes "member_guild_id member = guild_id guild"
      and "calculate_role_permissions roles member = Inr permissions"
      and "intersects permissions (ADMINISTRATOR P)"
  shows "calculate_permissions P member guild roles channel = ALL_PERMISSIONS P"
  using assms by (simp add: calculate_permissions_def intersects_def)

theorem administrator_overrides_witness:
  "member_guild_id \<lparr>member_guild_id = 1, member_role_ids = [2], member_user_id = 5\<rparr>
     = guild_id \<lparr>guild_id = 1, guild_owner_id = 6\<rparr>
   \<and> calculate_role_permissions
        [1 \<mapsto> \<lparr>role_id = 1, role_permissions = 1\<rparr>, 2 \<mapsto> \<lparr>role_id = 2, role_permissions = 8\<rparr>]
        \<lparr>member_guild_id = 1, member_role_ids = [2], member_user_id = 5\<rparr> = Inr 9
   \<and> intersects 9 (ADMINISTRATOR \<lparr>members = [1, 2, 4, 8], ADMINISTRATOR = 8\<rparr>)
   \<and> calculate_channel_overwrites \<lparr>members = [1, 2, 4, 8], ADMINISTRATOR = 8\<rparr>
        \<lparr>channel_guild_id = 1, permission_overwrites = [5 \<mapsto> \<lparr>ow_allow = 0, ow_deny = - 1\<rparr>]\<rparr>
        \<lparr>member_guild_id = 1, member_role_ids = [2], member_user_id = 5\<rparr> 9 = 0
   \<and> calculate_permissions \<lparr>members = [1, 2, 4, 8], ADMINISTRATOR = 8\<rparr>
        \<lparr>member_guild_id = 1, member_role_ids = [2], member_user_id = 5\<rparr>
        \<lparr>guild_id = 1, guild_owner_id = 6\<rparr>
        [1 \<mapsto> \<lparr>role_id = 1, role_permissions = 1\<rparr>, 2 \<mapsto> \<lparr>role_id = 2, role_permissions = 8\<rparr>]
        (Some \<lparr>channel_guild_id = 1, permission_overwrites = [5 \<mapsto> \<lparr>ow_allow = 0, ow_deny = - 1\<rparr>]\<rparr>)
      = Inr 15"
proof -
  let ?m = "\<lparr>member_guild_id = 1, member_role_ids = [2], member_user_id = 5\<rparr>"
  let ?g = "\<lparr>guild_id = 1, guild_owner_id = 6\<rparr>"
  let ?roles = "[1 \<mapsto> \<lparr>role_id = 1, role_permissions = 1\<rparr>, 2 \<mapsto> \<lparr>role_id = (2::nat), role_permissions = 8\<rparr>]"
  let ?P = "\<lparr>members = [1, 2, 4, 8], ADMINISTRATOR = 8\<rparr>"
  let ?ch = "\<lparr>channel_guild_id = 1, permission_overwrites = [5 \<mapsto> \<lparr>ow_allow = 0, ow_deny = - 1\<rparr>]\<rparr>"
  have h1: "member_guild_id ?m = guild_id ?g" by simp
  have h2: "calculate_role_permissions ?roles ?m = Inr 9"
    by (simp add: calculate_role_permissions_def)
  have h3: "intersects 9 (ADMINISTRATOR ?P)" by (simp add: intersects_def)
  have h4: "calculate_channel_overwrites ?P ?ch ?m 9 = 0"
    by (simp add: calculate_channel_overwrites_def invert_def everything_def)
  have "ALL_PERMISSIONS ?P = Inr 15" by (simp add: ALL_PERMISSIONS_def)
  then show ?thesis
    using administrator_overrides[OF h1 h2 h3, of "Some ?ch"] h1 h2 h3 h4 by simp
qed

lemma fetch_permissions_owner:
  assumes "resolve_guild client member (new_Backoff 5 4) s = (Inr (guild, roles), retry, s')"
      and "guild_owner_id guild = member_user_id member"
  shows "fetch_permissions P client member channel s = (ALL_PERMISSIONS P, s')"
  using assms by (simp add: fetch_permissions_def)

text \<open>
  Claim C3. When the owner of the guild is the member's user, \<^verbatim>\<open>calculate_permissions\<close>
  returns \<^verbatim>\<open>ALL_PERMISSIONS\<close> whatever the role mapping and the channel are, and so
  does \<^verbatim>\<open>fetch_permissions\<close> once the guild is resolved, from the cache or from
  REST, whatever the client would answer for roles and channel; the state it returns is
  the one the resolution of the guild left.
\<close>

theorem owner_short_circuit:
  "(member_guild_id member = guild_id guild \<and> guild_owner_id guild = member_user_id member
      \<longrightarrow> calculate_permissions P member guild roles channel = ALL_PERMISSIONS P)
   \<and> (resolve_guild client member (new_Backoff 5 4) s = (Inr (guild, roles'), retry, s')
        \<and> guild_owner_id guild = member_user_id member
      \<longrightarrow> fetch_permissions P client member channel' s = (ALL_PERMISSIONS P, s'))"
  by (simp add: calculate_permissions_def fetch_permissions_owner)

theorem owner_short_circuit_witness:
  "calculate_permissions \<lparr>members = [1, 2, 4, 8], ADMINISTRATOR = 8\<rparr>
     \<lparr>member_guild_id = 1, member_role_ids = [], member_user_id = 5\<rparr>
     \<lparr>guild_id = 1, guild_owner_id = 5\<rparr> Map.empty
     (Some \<lparr>channel_guild_id = 1, permission_overwrites = [1 \<mapsto> \<lparr>ow_allow = 0, ow_deny = - 1\<rparr>]\<rparr>)
     = Inr 15
   \<and> fetch_permissions \<lparr>members = [1, 2, 4, 8], ADMINISTRATOR = 8\<rparr>
       \<lparr>cache = Some \<lparr>get_guild = (\<lambda>w g. if g = 1 then Some \<lparr>guild_id = 1, guild_owner_id = 5\<rparr> else None),
                     get_roles_view_for_guild = (\<lambda>w g. []),
                     get_guild_channel = (\<lambda>w c. None)\<rparr>,
         fetch_guild = (\<lambda>g w. (Inl InternalServerError, w)),
         fetch_roles = (\<lambda>g w. (Inl InternalServerError, w)),
         fetch_channel = (\<lambda>c w. (Inl InternalServerError, w))\<rparr>
       \<lparr>member_guild_id = 1, member_role_ids = [], member_user_id = 5\<rparr>
       (Some (ChannelId 7))
       \<lparr>remote = (), trace = []\<rparr>
     = (Inr 15, \<lparr>remote = (), trace = []\<rparr>)"
proof -
  let ?P = "\<lparr>members = [1, 2, 4, 8], ADMINISTRATOR = 8\<rparr>"
  let ?m = "\<lparr>member_guild_id = 1, member_role_ids = [], member_user_id = 5\<rparr>"
  let ?g = "\<lparr>guild_id = 1, guild_owner_id = 5\<rparr>"
  let ?ch = "Some \<lparr>channel_guild_id = 1, permission_overwrites = [1 \<mapsto> \<lparr>ow_allow = 0, ow_deny = - 1\<rparr>]\<rparr>"
  let ?cl = "\<lparr>cache = Some \<lparr>get_guild = (\<lambda>w g. if g = 1 then Some \<lparr>guild_id = 1, guild_owner_id = 5\<rparr> else None),
                     get_roles_view_for_guild = (\<lambda>w g. []),
                     get_guild_channel = (\<lambda>w c. None)\<rparr>,
         fetch_guild = (\<lambda>g w. (Inl InternalServerError, w)),
         fetch_roles = (\<lambda>g w. (Inl InternalServerError, w)),
         fetch_channel = (\<lambda>c (w::unit). (Inl InternalServerError, w))\<rparr>"
  let ?s = "\<lparr>remote = (), trace = []\<rparr>"
  have a: "ALL_PERMISSIONS ?P = Inr 15" by (simp add: ALL_PERMISSIONS_def)
  have r: "resolve_guild ?cl ?m (new_Backoff 5 4) ?s = (Inr (?g, None), new_Backoff 5 4, ?s)"
    by (simp add: resolve_guild_def)
  show ?thesis
    using owner_short_circuit[of ?m ?g ?P Map.empty ?ch ?cl ?s None "new_Backoff 5 4" ?s "Some (ChannelId 7)"]
      a r by simp
qed

text \<open>
  Claim C4. \<^verbatim>\<open>calculate_permissions\<close> compares the member's guild with the guild and
  raises \<^verbatim>\<open>ValueError\<close> when they differ, but it never reads the guild of the
  channel. Given a channel of another guild it returns a permission set, where
  \<^verbatim>\<open>fetch_permissions\<close>, given the same objects, raises \<^verbatim>\<open>ValueError\<close>
  (\<^verbatim>\<open>Channel doesn't match up with the member's guild\<close>).
\<close>

theorem calculate_permissions_ignores_channel_guild:
  "calculate_permissions \<lparr>members = [1, 2, 4, 8], ADMINISTRATOR = 8\<rparr>
     \<lparr>member_guild_id = 1, member_role_ids = [], member_user_id = 5\<rparr>
     \<lparr>guild_id = 1, guild_owner_id = 6\<rparr>
     [1 \<mapsto> \<lparr>role_id = 1, role_permissions = 1\<rparr>]
     (Some \<lparr>channel_guild_id = 2, permission_overwrites = Map.empty\<rparr>) = Inr 1
   \<and> fetch_permissions \<lparr>members = [1, 2, 4, 8], ADMINISTRATOR = 8\<rparr>
       \<lparr>cache = Some \<lparr>get_guild = (\<lambda>w g. if g = 1 then Some \<lparr>guild_id = 1, guild_owner_id = 6\<rparr> else None),
                     get_roles_view_for_guild = (\<lambda>w g. [(1, \<lparr>role_id = 1, role_permissions = 1\<rparr>)]),
                     get_guild_channel = (\<lambda>w c. None)\<rparr>,
         fetch_guild = (\<lambda>g w. (Inl InternalServerError, w)),
         fetch_roles = (\<lambda>g w. (Inl InternalServerError, w)),
         fetch_channel = (\<lambda>c w. (Inl InternalServerError, w))\<rparr>
       \<lparr>member_guild_id = 1, member_role_ids = [], member_user_id = 5\<rparr>
       (Some (ChannelObject \<lparr>channel_guild_id = 2, permission_overwrites = Map.empty\<rparr>))
       \<lparr>remote = (), trace = []\<rparr>
     = (Inl ValueError, \<lparr>remote = (), trace = []\<rparr>)"
  by (simp add: calculate_permissions_def calculate_role_permissions_def
      calculate_channel_overwrites_def invert_def everything_def
      fetch_permissions_def resolve_guild_def
      resolve_roles_def truthy_roles_def resolve_channel_def falsy_channel_def)

subsection \<open>The retry driver\<close>

lemma fetch_loop_exhausted:
  "anext retry = None \<Longrightarrow>
   fetch_loop call retry s = (let (r, s') = invoke call s in (r, retry, s'))"
  by (subst fetch_loop.simps) simp

lemma fetch_loop_guarded:
  "anext retry = Some (wait, retry') \<Longrightarrow>
   fetch_loop call retry s =
     (let (r, s') = invoke call (sleep wait s) in
      (case r of
         Inr v \<Rightarrow> (Inr v, retry', s')
       | Inl exc \<Rightarrow>
           (case retry_after exc of
              Some d \<Rightarrow>
                (if d > 5 then (Inl exc, retry', s')
                 else fetch_loop call (set_next_backoff d retry') s')
            | None \<Rightarrow>
                (if exc = InternalServerError then fetch_loop call retry' s'
                 else (Inl exc, retry', s')))))"
  by (subst fetch_loop.simps) simp

lemma anext_retry:
  "started retry \<Longrightarrow> retries retry < max_retries retry \<Longrightarrow>
   anext retry = Some (next_backoff retry, retry\<lparr>retries := Suc (retries retry), next_backoff := None\<rparr>)"
  by (simp add: anext_def)

lemma anext_started: "anext retry = Some (wait, retry') \<Longrightarrow> started retry'"
  by (auto simp: anext_def split: if_splits)

lemma invoke_result:
  "call (remote s) = (r, w) \<Longrightarrow> invoke call s = (r, s\<lparr>remote := w, trace := trace s @ [Invoke]\<rparr>)"
  by (simp add: invoke_def)

lemma remote_sleep: "remote (sleep wait s) = remote s"
  by (simp add: sleep_def split: option.splits)

text \<open>
  Claim C7. At an attempt inside the loop that fails with a rate limit error carrying the
  wait \<open>d\<close>: when \<open>d\<close> exceeds 5, \<^verbatim>\<open>fetch_resource\<close> raises that error at once, and
  the run ends with the failed invocation, with no wait and no further invocation after
  it; otherwise \<open>d\<close> is recorded as the next wait and the loop goes on, and when a
  retry is left, the next attempt is made after waiting \<open>d\<close>. The instances
  are a reported wait of 3, answered by one retry after a wait of 3, and a reported wait
  of 10, which is raised at once.
\<close>

theorem rate_limit_ceiling:
  assumes guarded: "anext retry = Some (wait, retry')"
      and fails: "call (remote s) = (Inl exc, w)"
      and limited: "retry_after exc = Some d"
  shows "(d > 5 \<longrightarrow>
            fetch_loop call retry s =
              (Inl exc, retry',
               (sleep wait s)\<lparr>remote := w, trace := trace (sleep wait s) @ [Invoke]\<rparr>))
       \<and> (\<not> d > 5 \<longrightarrow>
            fetch_loop call retry s =
              fetch_loop call (retry'\<lparr>next_backoff := Some d\<rparr>)
                ((sleep wait s)\<lparr>remote := w, trace := trace (sleep wait s) @ [Invoke]\<rparr>))
       \<and> (\<not> d > 5 \<and> retries retry' < max_retries retry' \<and> call w = (Inr v, w') \<longrightarrow>
            fetch_loop call retry s =
              (Inr v, retry'\<lparr>retries := Suc (retries retry'), next_backoff := None\<rparr>,
               (sleep wait s)\<lparr>remote := w',
                  trace := trace (sleep wait s) @ [Invoke, Sleep d, Invoke]\<rparr>))"
proof -
  let ?s1 = "sleep wait s"
  let ?s2 = "?s1\<lparr>remote := w, trace := trace ?s1 @ [Invoke]\<rparr>"
  let ?r2 = "retry'\<lparr>next_backoff := Some d\<rparr>"
  have inv: "invoke call ?s1 = (Inl exc, ?s2)"
    using fails by (simp add: invoke_result remote_sleep)
  have step: "fetch_loop call retry s =
      (if d > 5 then (Inl exc, retry', ?s2) else fetch_loop call (set_next_backoff d retry') ?s2)"
    using limited inv by (simp add: fetch_loop_guarded[OF guarded])
  have rec: "set_next_backoff d retry' = ?r2"
    by (simp add: set_next_backoff_def)
  have a: "d > 5 \<longrightarrow> fetch_loop call retry s = (Inl exc, retry', ?s2)"
    using step by simp
  have b: "\<not> d > 5 \<longrightarrow> fetch_loop call retry s = fetch_loop call ?r2 ?s2"
    using step rec by simp
  have c: "\<not> d > 5 \<and> retries retry' < max_retries retry' \<and> call w = (Inr v, w') \<longrightarrow>
            fetch_loop call retry s =
              (Inr v, retry'\<lparr>retries := Suc (retries retry'), next_backoff := None\<rparr>,
               ?s1\<lparr>remote := w', trace := trace ?s1 @ [Invoke, Sleep d, Invoke]\<rparr>)"
  proof
    assume h: "\<not> d > 5 \<and> retries retry' < max_retries retry' \<and> call w = (Inr v, w')"
    have st: "started ?r2" using anext_started[OF guarded] by simp
    have g: "retries ?r2 < max_retries ?r2" using h by simp
    have "invoke call (sleep (Some d) ?s2)
            = (Inr v, ?s1\<lparr>remote := w', trace := trace ?s1 @ [Invoke, Sleep d, Invoke]\<rparr>)"
      using h by (simp add: invoke_def sleep_def)
    then have "fetch_loop call ?r2 ?s2 =
        (Inr v, retry'\<lparr>retries := Suc (retries retry'), next_backoff := None\<rparr>,
         ?s1\<lparr>remote := w', trace := trace ?s1 @ [Invoke, Sleep d, Invoke]\<rparr>)"
      by (simp add: fetch_loop_guarded[OF anext_retry[OF st g]])
    then show "fetch_loop call retry s =
              (Inr v, retry'\<lparr>retries := Suc (retries retry'), next_backoff := None\<rparr>,
               ?s1\<lparr>remote := w', trace := trace ?s1 @ [Invoke, Sleep d, Invoke]\<rparr>)"
      using b h by simp
  qed
  show ?thesis using a b c by blast
qed

theorem rate_limit_ceiling_witness:
  "fetch_resource (new_Backoff 5 4)
     (\<lambda>n. (if n = 0 then Inl (RateLimitedError 3) else Inr n, Suc n)) \<lparr>remote = 0, trace = []\<rparr>
     = (Inr 1, \<lparr>maximum = 5, max_retries = 4, started = True, retries = 1, next_backoff = None\<rparr>,
        \<lparr>remote = 2, trace = [Invoke, Sleep 3, Invoke]\<rparr>)
   \<and> fetch_resource (new_Backoff 5 4)
     (\<lambda>n. (Inl (RateLimitedError 10) :: error + nat, Suc n)) \<lparr>remote = 0, trace = []\<rparr>
     = (Inl (RateLimitedError 10),
        \<lparr>maximum = 5, max_retries = 4, started = True, retries = 0, next_backoff = None\<rparr>,
        \<lparr>remote = 1, trace = [Invoke]\<rparr>)"
proof -
  let ?retry = "reset (new_Backoff 5 4)"
  let ?first = "\<lparr>maximum = 5, max_retries = 4, started = True, retries = 0, next_backoff = None\<rparr>"
  let ?call3 = "\<lambda>n. (if n = 0 then Inl (RateLimitedError 3) else Inr n, Suc n)"
  let ?call10 = "\<lambda>n. (Inl (RateLimitedError 10) :: error + nat, Suc n)"
  let ?s = "\<lparr>remote = 0 :: nat, trace = []\<rparr>"
  have g: "anext ?retry = Some (None, ?first)"
    by (simp add: anext_def reset_def new_Backoff_def)
  have f3: "?call3 (remote ?s) = (Inl (RateLimitedError 3), 1)" by simp
  have f10: "?call10 (remote ?s) = (Inl (RateLimitedError 10), 1)" by simp
  have "fetch_loop ?call3 ?retry ?s =
          (Inr 1, \<lparr>maximum = 5, max_retries = 4, started = True, retries = 1, next_backoff = None\<rparr>,
           \<lparr>remote = 2, trace = [Invoke, Sleep 3, Invoke]\<rparr>)"
    using g f3 rate_limit_ceiling[of ?retry None ?first ?call3 ?s "RateLimitedError 3" 1 3 1 2,
        THEN conjunct2, THEN conjunct2]
    by (simp add: sleep_def)
  moreover have "fetch_loop ?call10 ?retry ?s =
          (Inl (RateLimitedError 10), ?first, \<lparr>remote = 1, trace = [Invoke]\<rparr>)"
    using g f10 rate_limit_ceiling[of ?retry None ?first ?call10 ?s "RateLimitedError 10" 1 10,
        THEN conjunct1]
    by (simp add: sleep_def)
  ultimately show ?thesis by (simp add: fetch_resource_def)
qed

lemma replay_length: "replay call w n = (rs, w') \<Longrightarrow> length rs = n"
  by (induction n arbitrary: w rs) (auto split: prod.splits)

lemma replay_Suc_failures:
  "replay call w (Suc n) = (map Inl (exc # excs), w'') \<Longrightarrow>
   \<exists>w'. call w = (Inl exc, w') \<and> replay call w' n = (map Inl excs, w'')"
  by (auto split: prod.splits)

lemma guarded_trace_Cons:
  "guarded_trace (exc # excs) =
     Invoke # (if excs = [] then [] else wait_after exc) @ guarded_trace excs"
  by (cases excs) simp_all

lemma anext_attempt:
  assumes "attempts_left retry = Suc n" and "started retry \<or> next_backoff retry = None"
  shows "\<exists>retry'. anext retry = Some (next_backoff retry, retry')
           \<and> started retry' \<and> next_backoff retry' = None \<and> attempts_left retry' = n
           \<and> attempts_left (set_next_backoff d retry') = n"
  using assms
  by (auto simp: anext_def attempts_left_def set_next_backoff_def split: if_splits)

lemma anext_none: "attempts_left retry = 0 \<Longrightarrow> anext retry = None"
  by (auto simp: anext_def attempts_left_def split: if_splits)

lemma fetch_loop_runs_out:
  "replay call (remote s) (attempts_left retry) = (map Inl excs, w) \<Longrightarrow>
   started retry \<or> next_backoff retry = None \<Longrightarrow>
   list_all retryable excs \<Longrightarrow> call w = (r, w') \<Longrightarrow>
   fst (fetch_loop call retry s) = r
   \<and> snd (snd (fetch_loop call retry s)) =
       s\<lparr>remote := w',
         trace := trace s @ (if excs = [] then [] else pending_wait retry)
                    @ guarded_trace excs @ [Invoke]\<rparr>"
proof (induction excs arbitrary: retry s)
  case Nil
  then have z: "attempts_left retry = 0"
    using replay_length[of call "remote s" "attempts_left retry" "[]" w] by simp
  then show ?case using Nil by (simp add: fetch_loop_exhausted[OF anext_none[OF z]] invoke_def)
next
  case (Cons exc excs)
  have len: "attempts_left retry = Suc (length excs)"
    using replay_length[OF Cons.prems(1)] by simp
  obtain w1 where c1: "call (remote s) = (Inl exc, w1)"
    and rest: "replay call w1 (length excs) = (map Inl excs, w)"
    using Cons.prems(1) len replay_Suc_failures[of call "remote s" "length excs" exc excs w] by auto
  let ?s1 = "sleep (next_backoff retry) s"
  let ?s2 = "?s1\<lparr>remote := w1, trace := trace ?s1 @ [Invoke]\<rparr>"
  have inv: "invoke call ?s1 = (Inl exc, ?s2)"
    using c1 by (simp add: invoke_result remote_sleep)
  have tr1: "trace ?s1 = trace s @ pending_wait retry"
    by (simp add: sleep_def pending_wait_def split: option.splits)
  have ok: "list_all retryable excs" using Cons.prems(3) by simp
  show ?case
  proof (cases "retry_after exc")
    case None
    then have e: "exc = InternalServerError" using Cons.prems(3) by (simp add: retryable_def)
    obtain r1 where a: "anext retry = Some (next_backoff retry, r1)"
      and st: "started r1" and nb: "next_backoff r1 = None" and left: "attempts_left r1 = length excs"
      using anext_attempt[OF len Cons.prems(2)] by blast
    have step: "fetch_loop call retry s = fetch_loop call r1 ?s2"
      using inv None e by (simp add: fetch_loop_guarded[OF a])
    have "replay call (remote ?s2) (attempts_left r1) = (map Inl excs, w)"
      using rest left by simp
    from Cons.IH[OF this _ ok Cons.prems(4)] st show ?thesis
      using step tr1 None nb
      by (simp add: guarded_trace_Cons pending_wait_def wait_after_def)
  next
    case (Some d)
    then have d: "\<not> d > 5" using Cons.prems(3) by (simp add: retryable_def)
    obtain r1 where a: "anext retry = Some (next_backoff retry, r1)"
      and st: "started r1" and left: "attempts_left (set_next_backoff d r1) = length excs"
      using anext_attempt[OF len Cons.prems(2), of d] by blast
    let ?r2 = "set_next_backoff d r1"
    have st2: "started ?r2" using st by (simp add: set_next_backoff_def)
    have step: "fetch_loop call retry s = fetch_loop call ?r2 ?s2"
      using inv Some d by (simp add: fetch_loop_guarded[OF a])
    have "replay call (remote ?s2) (attempts_left ?r2) = (map Inl excs, w)"
      using rest left by simp
    from Cons.IH[OF this _ ok Cons.prems(4)] st2 show ?thesis
      using step tr1 Some
      by (simp add: guarded_trace_Cons pending_wait_def wait_after_def set_next_backoff_def)
  qed
qed

lemma count_guarded_trace: "count_list (guarded_trace excs) Invoke = length excs"
  by (induction excs rule: guarded_trace.induct) (simp_all add: wait_after_def split: option.splits)

text \<open>
  Claim C8. When the first attempt and every retry the budget allows (4 in
  \<^verbatim>\<open>fetch_permissions\<close>) fail with an absorbed failure, each failure but the last
  using up one retry, \<^verbatim>\<open>fetch_resource\<close> makes exactly one more invocation and returns
  what that invocation yields, result or exception, unchanged. The run makes the first
  attempt, one invocation per retry and the final one, and no wait precedes the final
  one.
\<close>

theorem retries_exhausted:
  assumes "replay call (remote s) (Suc (max_retries retry)) = (map Inl excs, w)"
      and "list_all retryable excs"
      and "call w = (r, w')"
  shows "fst (fetch_resource retry call s) = r
       \<and> snd (snd (fetch_resource retry call s)) =
           s\<lparr>remote := w', trace := trace s @ guarded_trace excs @ [Invoke]\<rparr>
       \<and> count_list (guarded_trace excs @ [Invoke]) Invoke = max_retries retry + 2"
proof -
  have l: "attempts_left (reset retry) = Suc (max_retries retry)"
    by (simp add: attempts_left_def reset_def)
  have "replay call (remote s) (attempts_left (reset retry)) = (map Inl excs, w)"
    using assms(1) l by simp
  from fetch_loop_runs_out[OF this _ assms(2,3)]
  have "fst (fetch_resource retry call s) = r
       \<and> snd (snd (fetch_resource retry call s)) =
           s\<lparr>remote := w', trace := trace s @ guarded_trace excs @ [Invoke]\<rparr>"
    by (simp add: fetch_resource_def pending_wait_def reset_def)
  moreover have "count_list (guarded_trace excs @ [Invoke]) Invoke = max_retries retry + 2"
    using replay_length[OF assms(1)] by (simp add: count_guarded_trace)
  ultimately show ?thesis by simp
qed

theorem retries_exhausted_witness:
  "fst (fetch_resource (new_Backoff 5 4)
     (\<lambda>n. (if n = 0 then Inl InternalServerError
            else if n = 1 then Inl (RateLimitedError 2)
            else if n = 2 then Inl InternalServerError
            else if n = 3 then Inl (RateLimitTooLongError 5)
            else if n = 4 then Inl InternalServerError
            else if n = 5 then Inl InternalServerError
            else Inr n, Suc n))
     \<lparr>remote = 0, trace = []\<rparr>) = Inl InternalServerError
   \<and> snd (snd (fetch_resource (new_Backoff 5 4)
     (\<lambda>n. (if n = 0 then Inl InternalServerError
            else if n = 1 then Inl (RateLimitedError 2)
            else if n = 2 then Inl InternalServerError
            else if n = 3 then Inl (RateLimitTooLongError 5)
            else if n = 4 then Inl InternalServerError
            else if n = 5 then Inl InternalServerError
            else Inr n, Suc n))
     \<lparr>remote = 0, trace = []\<rparr>))
     = \<lparr>remote = 6, trace = [Invoke, Invoke, Sleep 2, Invoke, Invoke, Sleep 5, Invoke, Invoke]\<rparr>
   \<and> fst (fetch_resource (new_Backoff 5 4)
     (\<lambda>n. (if n < 5 then Inl InternalServerError else Inr n, Suc n))
     \<lparr>remote = 0, trace = []\<rparr>) = Inr 5"
proof -
  let ?call = "\<lambda>n. (if n = 0 then Inl InternalServerError
            else if n = 1 then Inl (RateLimitedError 2)
            else if n = 2 then Inl InternalServerError
            else if n = 3 then Inl (RateLimitTooLongError 5)
            else if n = 4 then Inl InternalServerError
            else if n = 5 then Inl InternalServerError
            else Inr n, Suc n)"
  let ?plain = "\<lambda>n::nat. (if n < 5 then Inl InternalServerError else Inr n, Suc n)"
  let ?s = "\<lparr>remote = 0 :: nat, trace = []\<rparr>"
  let ?excs = "[InternalServerError, RateLimitedError 2, InternalServerError,
                RateLimitTooLongError 5, InternalServerError]"
  let ?five = "[InternalServerError, InternalServerError, InternalServerError,
                InternalServerError, InternalServerError]"
  have h1: "replay ?call (remote ?s) (Suc (max_retries (new_Backoff 5 4))) = (map Inl ?excs, 5)"
    by (simp add: new_Backoff_def eval_nat_numeral)
  have h2: "list_all retryable ?excs" by (simp add: retryable_def)
  have h3: "?call 5 = (Inl InternalServerError, 6)" by simp
  have p1: "replay ?plain (remote ?s) (Suc (max_retries (new_Backoff 5 4))) = (map Inl ?five, 5)"
    by (simp add: new_Backoff_def eval_nat_numeral)
  have p2: "list_all retryable ?five" by (simp add: retryable_def)
  have p3: "?plain 5 = (Inr 5, 6)" by simp
  show ?thesis
    using retries_exhausted[OF h1 h2 h3] retries_exhausted[OF p1 p2 p3]
    by (simp add: wait_after_def)
qed

subsection \<open>One retry object for three resolutions\<close>

lemma reset_is_new: "reset retry = new_Backoff (maximum retry) (max_retries retry)"
  by (cases retry) (simp add: reset_def new_Backoff_def)

lemma fetch_loop_config:
  "fetch_loop call retry s = (r, retry', s') \<Longrightarrow>
   maximum retry' = maximum retry \<and> max_retries retry' = max_retries retry"
proof (induction call retry s arbitrary: r retry' s' rule: fetch_loop.induct)
  case (1 call retry s)
  show ?case
  proof (cases "anext retry")
    case None
    then show ?thesis using "1.prems"
      by (auto simp: fetch_loop_exhausted split: prod.splits)
  next
    case (Some p)
    obtain wait retry1 where p: "p = (wait, retry1)" by (cases p)
    have a: "anext retry = Some (wait, retry1)" using Some p by simp
    have c1: "maximum retry1 = maximum retry \<and> max_retries retry1 = max_retries retry"
      using a by (auto simp: anext_def split: if_splits)
    obtain r1 s1 where inv: "invoke call (sleep wait s) = (r1, s1)"
      by (cases "invoke call (sleep wait s)")
    show ?thesis
    proof (cases r1)
      case (Inr v)
      then show ?thesis using "1.prems" inv c1 by (simp add: fetch_loop_guarded[OF a])
    next
      case (Inl exc)
      show ?thesis
      proof (cases "retry_after exc")
        case None
        show ?thesis
        proof (cases "exc = InternalServerError")
          case True
          have "fetch_loop call retry1 s1 = (r, retry', s')"
            using "1.prems" inv Inl None True by (simp add: fetch_loop_guarded[OF a])
          from "1.IH"(1)[OF a refl inv[symmetric] refl Inl None True this] c1
          show ?thesis by simp
        next
          case False
          then show ?thesis using "1.prems" inv Inl None c1
            by (simp add: fetch_loop_guarded[OF a])
        qed
      next
        case (Some d)
        show ?thesis
        proof (cases "d > 5")
          case True
          then show ?thesis using "1.prems" inv Inl Some c1
            by (simp add: fetch_loop_guarded[OF a])
        next
          case False
          have "fetch_loop call (set_next_backoff d retry1) s1 = (r, retry', s')"
            using "1.prems" inv Inl Some False by (simp add: fetch_loop_guarded[OF a])
          from "1.IH"(2)[OF a refl inv[symmetric] refl Inl Some False this] c1
          show ?thesis by (simp add: set_next_backoff_def)
        qed
      qed
    qed
  qed
qed

lemma fetch_resource_config:
  "fetch_resource retry call s = (r, retry', s') \<Longrightarrow>
   maximum retry' = maximum retry \<and> max_retries retry' = max_retries retry"
  using fetch_loop_config[of call "reset retry" s r retry' s']
  by (simp add: fetch_resource_def reset_def)

lemma fetch_resource_any_state:
  "maximum retry = 5 \<Longrightarrow> max_retries retry = 4 \<Longrightarrow>
   fetch_resource retry call s = fetch_resource (new_Backoff 5 4) call s"
  by (simp add: fetch_resource_def reset_is_new) (simp add: new_Backoff_def reset_def)

lemma resolve_guild_config:
  "resolve_guild client member retry s = (r, retry', s') \<Longrightarrow>
   maximum retry' = maximum retry \<and> max_retries retry' = max_retries retry"
  by (auto simp: resolve_guild_def split: option.splits prod.splits sum.splits
      dest: fetch_resource_config)

lemma resolve_roles_config:
  "resolve_roles client member roles retry s = (r, retry', s') \<Longrightarrow>
   maximum retry' = maximum retry \<and> max_retries retry' = max_retries retry"
  by (auto simp: resolve_roles_def Let_def split: option.splits prod.splits sum.splits if_splits
      dest: fetch_resource_config)

lemma resolve_roles_any_state:
  assumes "maximum retry = 5" and "max_retries retry = 4"
      and "resolve_roles client member roles retry s = (r, retry', s')"
  shows "\<exists>retry''. resolve_roles client member roles (new_Backoff 5 4) s = (r, retry'', s')"
  using assms(3)
  by (auto simp: resolve_roles_def Let_def fetch_resource_any_state[OF assms(1,2)]
      split: option.splits prod.splits sum.splits if_splits)

lemma resolve_channel_any_state:
  assumes "maximum retry = 5" and "max_retries retry = 4"
      and "resolve_channel client channel retry s = (r, retry', s')"
  shows "\<exists>retry''. resolve_channel client channel (new_Backoff 5 4) s = (r, retry'', s')"
  using assms(3)
  by (auto simp: resolve_channel_def fetch_resource_any_state[OF assms(1,2)]
      split: option.splits prod.splits sum.splits channel_arg.splits PartialChannel.splits)

lemma fetch_permissions_is_fresh:
  "fetch_permissions P client member channel s = fetch_permissions_fresh P client member channel s"
proof -
  obtain rg b1 s1 where g: "resolve_guild client member (new_Backoff 5 4) s = (rg, b1, s1)"
    by (cases "resolve_guild client member (new_Backoff 5 4) s")
  have c1: "maximum b1 = 5" "max_retries b1 = 4"
    using resolve_guild_config[OF g] by (simp_all add: new_Backoff_def)
  show ?thesis
  proof (cases rg)
    case (Inl e)
    then show ?thesis using g by (simp add: fetch_permissions_def fetch_permissions_fresh_def)
  next
    case (Inr gr)
    obtain guild roles where gr: "gr = (guild, roles)" by (cases gr)
    obtain rr b2 s2 where r: "resolve_roles client member roles b1 s1 = (rr, b2, s2)"
      by (cases "resolve_roles client member roles b1 s1")
    obtain b2' where r': "resolve_roles client member roles (new_Backoff 5 4) s1 = (rr, b2', s2)"
      using resolve_roles_any_state[OF c1 r] by blast
    have c2: "maximum b2 = 5" "max_retries b2 = 4"
      using resolve_roles_config[OF r] c1 by simp_all
    show ?thesis
    proof (cases channel)
      case None
      then show ?thesis using g Inr gr r r'
        by (simp add: fetch_permissions_def fetch_permissions_fresh_def split: sum.splits)
    next
      case (Some c)
      obtain rc b3 s3 where ch: "resolve_channel client c b2 s2 = (rc, b3, s3)"
        by (cases "resolve_channel client c b2 s2")
      obtain b3' where ch': "resolve_channel client c (new_Backoff 5 4) s2 = (rc, b3', s3)"
        using resolve_channel_any_state[OF c2 ch] by blast
      show ?thesis using g Inr gr r r' Some ch ch'
        by (simp add: fetch_permissions_def fetch_permissions_fresh_def split: sum.splits)
    qed
  qed
qed

lemma fetch_loop_code:
  "fetch_loop call retry s =
     (if \<not> started retry \<or> retries retry < max_retries retry
      then (let wait = (if started retry then next_backoff retry else None);
                retry' = (if started retry
                          then retry\<lparr>retries := Suc (retries retry), next_backoff := None\<rparr>
                          else retry\<lparr>started := True\<rparr>);
                (r, s') = invoke call (sleep wait s) in
            (case r of
               Inr v \<Rightarrow> (Inr v, retry', s')
             | Inl exc \<Rightarrow>
                 (case retry_after exc of
                    Some d \<Rightarrow>
                      (if d > 5 then (Inl exc, retry', s')
                       else fetch_loop call (set_next_backoff d retry') s')
                  | None \<Rightarrow>
                      (if exc = InternalServerError then fetch_loop call retry' s'
                       else (Inl exc, retry', s')))))
      else (let (r, s') = invoke call s in (r, retry, s')))"
  by (subst fetch_loop.simps) (simp add: anext_def Let_def)

text \<open>
  Claim C10. \<^verbatim>\<open>fetch_resource\<close> resets the retry object before its first attempt:
  whatever the object went through before, the call runs as the loop runs on a newly
  made object of the same configuration. Hence \<^verbatim>\<open>fetch_permissions\<close>, which hands
  one object to the resolutions of guild, roles and channel, behaves as if each of them
  had an object of its own, newly made with 4 retries. In the instance below each of
  the three remote calls fails 5 times, on its first attempt and on all 4 retries,
  before the final call succeeds, and the permissions are computed.
\<close>

theorem every_fetch_gets_full_budget:
  "fetch_resource retry call s =
     fetch_loop call (new_Backoff (maximum retry) (max_retries retry)) s
   \<and> fetch_permissions P client member channel s' =
       fetch_permissions_fresh P client member channel s'"
  by (simp add: fetch_permissions_is_fresh) (simp add: fetch_resource_def reset_is_new)

theorem every_fetch_gets_full_budget_witness:
  "fetch_permissions \<lparr>members = [1, 2, 4, 8], ADMINISTRATOR = 8\<rparr>
     \<lparr>cache = None,
      fetch_guild = (\<lambda>g n. (if n < 5 then Inl InternalServerError
                             else Inr \<lparr>guild_id = 1, guild_owner_id = 6, guild_roles = []\<rparr>, Suc n)),
      fetch_roles = (\<lambda>g n. (if n < 11 then Inl InternalServerError
                             else Inr [\<lparr>role_id = 1, role_permissions = 3\<rparr>], Suc n)),
      fetch_channel = (\<lambda>c n. (if n < 17 then Inl InternalServerError
                             else Inr (A_GuildChannel \<lparr>channel_guild_id = 1,
                                    permission_overwrites = [5 \<mapsto> \<lparr>ow_allow = 4, ow_deny = 1\<rparr>]\<rparr>), Suc n))\<rparr>
     \<lparr>member_guild_id = 1, member_role_ids = [], member_user_id = 5\<rparr>
     (Some (ChannelId 7))
     \<lparr>remote = 0, trace = []\<rparr>
   = (Inr 6, \<lparr>remote = 18, trace = replicate 18 Invoke\<rparr>)"
  using every_fetch_gets_full_budget
    [of "new_Backoff 5 4" "\<lambda>n::nat. (Inr n :: error + nat, Suc n)" "\<lparr>remote = 0, trace = []\<rparr>"
        "\<lparr>members = [1, 2, 4, 8], ADMINISTRATOR = 8\<rparr>"
     "\<lparr>cache = None,
      fetch_guild = (\<lambda>g n. (if n < 5 then Inl InternalServerError
                             else Inr \<lparr>guild_id = 1, guild_owner_id = 6, guild_roles = []\<rparr>, Suc n)),
      fetch_roles = (\<lambda>g n. (if n < 11 then Inl InternalServerError
                             else Inr [\<lparr>role_id = 1, role_permissions = 3\<rparr>], Suc n)),
      fetch_channel = (\<lambda>c n. (if n < 17 then Inl InternalServerError
                             else Inr (A_GuildChannel \<lparr>channel_guild_id = 1,
                                    permission_overwrites = [5 \<mapsto> \<lparr>ow_allow = 4, ow_deny = 1\<rparr>]\<rparr>), Suc n))\<rparr>"
     "\<lparr>member_guild_id = 1, member_role_ids = [], member_user_id = 5\<rparr>"
     "Some (ChannelId 7)"
     "\<lparr>remote = 0, trace = []\<rparr>"]
  by (simp add: fetch_permissions_fresh_def resolve_guild_def resolve_roles_def resolve_channel_def
      truthy_roles_def roles_dict_def falsy_channel_def fetch_resource_def reset_def new_Backoff_def
      fetch_loop_code invoke_def sleep_def Guild.truncate_def
      calculate_role_permissions_def calculate_channel_overwrites_def invert_def everything_def
      eval_nat_numeral)

end
